theory Spec2Isabelle
  imports Main "HOL-Library.Sublist"
begin

section \<open>The daily paper feed: a shallow embedding of \<open>daily_fetch.py\<close>\<close>

text \<open>
  The script loads a persisted JSON collection, asks an upstream search service for
  recent entries, filters them, asks a text service for a summary of each, builds one
  record per new entry and writes the new records, followed by the old collection, back
  to the file.

  Everything outside the script is an input of the model: the state of the file, the
  clock, what the upstream generator yields, what the text service answers on each call,
  what \<open>random.choice\<close> draws, and whether the final write fails. Strings are byte
  lists (UTF-8); the separators the script splits and replaces on are ASCII, so working
  on bytes and working on code points agree. The progress lines printed by the script
  and its two \<open>sleep\<close> delays are not part of the model. The theory is about \<open>main()\<close>,
  which only runs once the module-level credential check has passed.
\<close>

subsection \<open>Exceptions and JSON values\<close>

text \<open>The exception classes (all subclasses of \<open>Exception\<close>) that occur in a run.\<close>

datatype py_error =
  TypeError | KeyError | AttributeError | IndexError
  | JSONDecodeError | OSError | HTTPError | APIError

text \<open>
  What \<open>json.load\<close> produces and \<open>json.dump\<close> consumes. An object is the Python dict
  in insertion order; the script never computes with numbers, only copies them.
\<close>

datatype json =
  JNull
  | JBool bool
  | JNum int
  | JStr string
  | JArr "json list"
  | JObj "(string \<times> json) list"

text \<open>
  The persisted file \<open>papers_data.json\<close>: absent, or present. A present file is
  represented by what \<open>open\<close> followed by \<open>json.load\<close> does on it: raise, or return
  the value of the document it holds.
\<close>

datatype file_state = Absent | Present "py_error + json"

subsection \<open>Configuration\<close>

definition TARGET_CATEGORIES :: "string list" where
  "TARGET_CATEGORIES = [''cs.AI'', ''cs.CL'', ''cs.LG'', ''cs.CV'']"

definition GRADIENTS :: "string list" where
  "GRADIENTS =
    [''bg-gradient-to-br from-indigo-600 to-blue-600'',
     ''bg-gradient-to-br from-purple-500 to-pink-600'',
     ''bg-gradient-to-br from-orange-400 to-red-500'',
     ''bg-gradient-to-br from-emerald-500 to-teal-600'',
     ''bg-gradient-to-br from-slate-700 to-slate-900'',
     ''bg-gradient-to-br from-rose-500 to-red-600'']"

subsection \<open>\<open>get_existing_papers\<close>\<close>

text \<open>
  If the file exists, the parsed document is returned as it is; the bare \<open>except\<close>
  turns every exception of \<open>open\<close> and \<open>json.load\<close> into the empty list. Without
  a file the result is the empty list as well.
\<close>

fun get_existing_papers :: "file_state \<Rightarrow> json" where
  "get_existing_papers (Present (Inr document)) = document"
| "get_existing_papers (Present (Inl e)) = JArr []"
| "get_existing_papers Absent = JArr []"

text \<open>
  The shape the specification expects of a loaded collection: a JSON array whose
  elements are all objects.
\<close>

fun is_object :: "json \<Rightarrow> bool" where
  "is_object (JObj kvs) = True"
| "is_object _ = False"

fun is_record_sequence :: "json \<Rightarrow> bool" where
  "is_record_sequence (JArr ps) = list_all is_object ps"
| "is_record_sequence _ = False"

subsection \<open>Upstream entries and the environment of a run\<close>

text \<open>
  An upstream entry, with the fields of \<open>arxiv.Result\<close> the script reads. Instants are
  microseconds since the epoch (the resolution of \<open>datetime\<close>), all in UTC; \<open>authors\<close>
  holds the authors' names.
\<close>

record entry =
  entry_id :: string
  title :: string
  summary :: string
  categories :: "string list"
  authors :: "string list"
  updated :: int
  pdf_url :: "string option"

text \<open>
  The environment of one run.
  \<^item> \<open>utc_now\<close>: the clock when the fetch starts.
  \<^item> \<open>results\<close>: what the generator \<open>client_arxiv.results(search)\<close> does when it is
    consumed to its end: the entries it yields, in order, and the exception it raises
    instead of stopping, if any. (The client caps the entries at \<open>max_results = 100\<close>;
    nothing below depends on the cap.)
  \<^item> \<open>chat\<close>: the outcome of the \<open>i\<close>-th enrichment request, for a title and an
    abstract: the exception raised by the request or by \<open>json.loads\<close> on its answer, or
    the value \<open>json.loads\<close> returns.
  \<^item> \<open>choice\<close>: the \<open>i\<close>-th draw of \<open>random.choice\<close>, read as an index of the palette.
  \<^item> \<open>write_error\<close>: the exception raised by the final \<open>open\<close>/\<open>json.dump\<close>, if any.
\<close>

record world =
  utc_now :: int
  results :: "entry list \<times> py_error option"
  chat :: "nat \<Rightarrow> string \<Rightarrow> string \<Rightarrow> py_error + json"
  choice :: "nat \<Rightarrow> nat"
  write_error :: "py_error option"

subsection \<open>Strings and dates\<close>

text \<open>\<open>s.split(sep)\<close> for a one-character separator: never the empty list.\<close>

fun py_split :: "char \<Rightarrow> string \<Rightarrow> string list" where
  "py_split sep [] = [[]]"
| "py_split sep (c # cs) =
    (let ps = py_split sep cs in
     if c = sep then [] # ps else (c # hd ps) # tl ps)"

text \<open>\<open>s.split(sep)[-1]\<close>\<close>

definition last_part :: "char \<Rightarrow> string \<Rightarrow> string" where
  "last_part sep s = last (py_split sep s)"

text \<open>\<open>s.replace('\n', ' ')\<close>\<close>

definition replace_newlines :: "string \<Rightarrow> string" where
  "replace_newlines s = map (\<lambda>c. if c = CHR 0x0A then CHR '' '' else c) s"

text \<open>\<open>timedelta(hours=h)\<close> in microseconds.\<close>

definition timedelta_hours :: "int \<Rightarrow> int" where
  "timedelta_hours h = h * 3600000000"

text \<open>
  \<open>d.strftime("%Y-%m-%d")\<close> for an instant in UTC: the day number since the epoch is
  turned into a proleptic Gregorian date (years counted from March in 400-year eras),
  then printed with four, two and two digits.
\<close>

definition civil_from_days :: "int \<Rightarrow> int \<times> int \<times> int" where
  "civil_from_days days =
    (let z = days + 719468;
         era = z div 146097;
         doe = z - era * 146097;
         yoe = (doe - doe div 1460 + doe div 36524 - doe div 146096) div 365;
         doy = doe - (365 * yoe + yoe div 4 - yoe div 100);
         mp = (5 * doy + 2) div 153;
         d = doy - (153 * mp + 2) div 5 + 1;
         m = (if mp < 10 then mp + 3 else mp - 9);
         y = yoe + era * 400 + (if m \<le> 2 then 1 else 0)
     in (y, m, d))"

definition digit :: "nat \<Rightarrow> char" where
  "digit n = ''0123456789'' ! (n mod 10)"

definition two_digits :: "int \<Rightarrow> string" where
  "two_digits n = [digit (nat n div 10), digit (nat n)]"

definition four_digits :: "int \<Rightarrow> string" where
  "four_digits n =
    [digit (nat n div 1000), digit (nat n div 100), digit (nat n div 10), digit (nat n)]"

definition strftime_ymd :: "int \<Rightarrow> string" where
  "strftime_ymd t =
    (case civil_from_days (t div 86400000000) of
       (y, m, d) \<Rightarrow> four_digits y @ ''-'' @ two_digits m @ ''-'' @ two_digits d)"

subsection \<open>\<open>fetch_arxiv_updates\<close>\<close>

text \<open>\<open>r.entry_id.split('/')[-1]\<close>\<close>

definition paper_id :: "entry \<Rightarrow> string" where
  "paper_id r = last_part CHR ''/'' (entry_id r)"

text \<open>\<open>[c for c in r.categories if c in TARGET_CATEGORIES]\<close>\<close>

definition target_cats :: "entry \<Rightarrow> string list" where
  "target_cats r = filter (\<lambda>c. c \<in> set TARGET_CATEGORIES) (categories r)"

text \<open>
  The \<open>for\<close> loop over the generator, with \<open>new_papers\<close> as accumulator. An entry that
  is too old ends the loop (\<open>break\<close>); a known id and an entry without a target category
  are skipped (\<open>continue\<close>); when the entries are used up, the generator stops or raises.
\<close>

fun results_loop ::
  "json set \<Rightarrow> int \<Rightarrow> entry list \<Rightarrow> py_error option \<Rightarrow> entry list \<Rightarrow> py_error + entry list"
where
  "results_loop existing_ids time_threshold [] failure new_papers =
    (case failure of None \<Rightarrow> Inr new_papers | Some e \<Rightarrow> Inl e)"
| "results_loop existing_ids time_threshold (r # rs) failure new_papers =
    (if updated r < time_threshold then Inr new_papers
     else if JStr (paper_id r) \<in> existing_ids
       then results_loop existing_ids time_threshold rs failure new_papers
     else if target_cats r = []
       then results_loop existing_ids time_threshold rs failure new_papers
     else results_loop existing_ids time_threshold rs failure (new_papers @ [r]))"

definition fetch_arxiv_updates :: "world \<Rightarrow> json set \<Rightarrow> py_error + entry list" where
  "fetch_arxiv_updates w existing_ids =
    (let time_threshold = utc_now w - timedelta_hours 25
     in results_loop existing_ids time_threshold (fst (results w)) (snd (results w)) [])"

subsection \<open>\<open>ai_process\<close>\<close>

text \<open>
  The two placeholders of the \<open>except\<close> branch and the two defaults of the record
  builder, as UTF-8 bytes.
\<close>

definition summary_unavailable :: string where
  "summary_unavailable =
    [CHR 0x41, CHR 0x49, CHR 0x20, CHR 0xE6, CHR 0x80, CHR 0xBB, CHR 0xE7, CHR 0xBB, CHR 0x93,
     CHR 0xE6, CHR 0x9A, CHR 0x82, CHR 0xE4, CHR 0xB8, CHR 0x8D, CHR 0xE5, CHR 0x8F, CHR 0xAF,
     CHR 0xE7, CHR 0x94, CHR 0xA8]"

definition translation_unavailable :: string where
  "translation_unavailable =
    [CHR 0xE7, CHR 0xBF, CHR 0xBB, CHR 0xE8, CHR 0xAF, CHR 0x91, CHR 0xE6, CHR 0x9A, CHR 0x82,
     CHR 0xE4, CHR 0xB8, CHR 0x8D, CHR 0xE5, CHR 0x8F, CHR 0xAF, CHR 0xE7, CHR 0x94, CHR 0xA8]"

definition no_summary :: string where
  "no_summary =
    [CHR 0xE6, CHR 0x97, CHR 0xA0, CHR 0xE6, CHR 0x80, CHR 0xBB, CHR 0xE7, CHR 0xBB, CHR 0x93]"

definition no_translation :: string where
  "no_translation =
    [CHR 0xE6, CHR 0x97, CHR 0xA0, CHR 0xE7, CHR 0xBF, CHR 0xBB, CHR 0xE8, CHR 0xAF, CHR 0x91]"

definition fallback :: json where
  "fallback =
    JObj [(''innovation'', JStr summary_unavailable),
          (''abstract_zh'', JStr translation_unavailable)]"

text \<open>
  The \<open>i\<close>-th call: the parsed answer, or the placeholder pair when anything in the
  \<open>try\<close> block raised.
\<close>

definition ai_process :: "world \<Rightarrow> nat \<Rightarrow> string \<Rightarrow> string \<Rightarrow> json" where
  "ai_process w i ttl abstract =
    (case chat w i ttl abstract of Inl e \<Rightarrow> fallback | Inr answer \<Rightarrow> answer)"

subsection \<open>The record builder\<close>

text \<open>\<open>d.get(key, default)\<close>: only a dict has the method.\<close>

fun dict_get :: "json \<Rightarrow> string \<Rightarrow> json \<Rightarrow> py_error + json" where
  "dict_get (JObj kvs) key dflt =
    Inr (case map_of kvs key of None \<Rightarrow> dflt | Some v \<Rightarrow> v)"
| "dict_get _ key dflt = Inl AttributeError"

text \<open>\<open>xs[0]\<close>\<close>

fun first_item :: "'a list \<Rightarrow> py_error + 'a" where
  "first_item [] = Inl IndexError"
| "first_item (x # xs) = Inr x"

text \<open>\<open>random.choice(GRADIENTS)\<close>, for the draw \<open>n\<close>.\<close>

definition random_choice :: "nat \<Rightarrow> string" where
  "random_choice n = GRADIENTS ! (n mod length GRADIENTS)"

text \<open>\<open>[t.split('.')[-1] for t in r.categories if t in TARGET_CATEGORIES]\<close>\<close>

definition tags_of :: "entry \<Rightarrow> string list" where
  "tags_of r =
    map (last_part CHR ''.'') (filter (\<lambda>t. t \<in> set TARGET_CATEGORIES) (categories r))"

text \<open>
  The dict literal \<open>paper_obj\<close>, its items evaluated in the order written: the two
  \<open>ai_res.get\<close> calls come before \<open>r.categories[0]\<close>.
\<close>

definition paper_obj :: "entry \<Rightarrow> string \<Rightarrow> json \<Rightarrow> py_error + json" where
  "paper_obj r gradient ai_res =
    (case dict_get ai_res ''innovation'' (JStr no_summary) of
       Inl e \<Rightarrow> Inl e
     | Inr innovation \<Rightarrow>
    (case dict_get ai_res ''abstract_zh'' (JStr no_translation) of
       Inl e \<Rightarrow> Inl e
     | Inr abstract_zh \<Rightarrow>
    (case first_item (categories r) of
       Inl e \<Rightarrow> Inl e
     | Inr affiliation \<Rightarrow>
       Inr (JObj
        [(''id'', JStr (paper_id r)),
         (''orig_title'', JStr (replace_newlines (title r))),
         (''tags'', JArr (map JStr (tags_of r))),
         (''userTags'', JArr []),
         (''coverGradient'', JStr gradient),
         (''summary'', JObj [(''innovation'', innovation)]),
         (''abstract_zh'', abstract_zh),
         (''abstract_en'', JStr (replace_newlines (summary r))),
         (''authors'', JArr (map JStr (take 5 (authors r)))),
         (''affiliation'', JStr affiliation),
         (''date'', JStr (strftime_ymd (updated r))),
         (''pdf_url'', (case pdf_url r of None \<Rightarrow> JNull | Some u \<Rightarrow> JStr u)),
         (''likes'', JNum 0), (''isLiked'', JBool False),
         (''collections'', JNum 0), (''isCollected'', JBool False),
         (''comments'', JArr []), (''qa'', JArr []),
         (''expanded'', JBool False), (''isTranslated'', JBool False)]))))"

subsection \<open>\<open>main\<close>\<close>

text \<open>
  \<open>{p['id'] for p in existing_data}\<close>. Iterating needs a list, a dict (its keys) or a
  string (its characters); \<open>p['id']\<close> needs a dict with that key; a set element must be
  hashable. The first failure ends the comprehension.
\<close>

fun hashable :: "json \<Rightarrow> bool" where
  "hashable (JArr xs) = False"
| "hashable (JObj kvs) = False"
| "hashable _ = True"

fun id_of :: "json \<Rightarrow> py_error + json" where
  "id_of (JObj kvs) =
    (case map_of kvs ''id'' of
       None \<Rightarrow> Inl KeyError
     | Some v \<Rightarrow> if hashable v then Inr v else Inl TypeError)"
| "id_of _ = Inl TypeError"

fun collect_ids :: "json list \<Rightarrow> json set \<Rightarrow> py_error + json set" where
  "collect_ids [] ids = Inr ids"
| "collect_ids (p # ps) ids =
    (case id_of p of Inl e \<Rightarrow> Inl e | Inr v \<Rightarrow> collect_ids ps (insert v ids))"

fun existing_ids_of :: "json \<Rightarrow> py_error + json set" where
  "existing_ids_of (JArr ps) = collect_ids ps {}"
| "existing_ids_of (JObj kvs) = collect_ids (map (\<lambda>kv. JStr (fst kv)) kvs) {}"
| "existing_ids_of (JStr s) = collect_ids (map (\<lambda>c. JStr [c]) s) {}"
| "existing_ids_of _ = Inl TypeError"

text \<open>The \<open>try\<close>/\<open>except\<close> around the fetch: any exception means no new papers.\<close>

definition raw_papers :: "world \<Rightarrow> json set \<Rightarrow> entry list" where
  "raw_papers w existing_ids =
    (case fetch_arxiv_updates w existing_ids of Inl e \<Rightarrow> [] | Inr new_papers \<Rightarrow> new_papers)"

text \<open>
  The loop over \<open>enumerate(raw_papers)\<close>, with \<open>processed_list\<close> as accumulator. An
  exception of the record builder is not caught.
\<close>

fun process :: "world \<Rightarrow> nat \<Rightarrow> entry list \<Rightarrow> json list \<Rightarrow> py_error + json list" where
  "process w i [] processed_list = Inr processed_list"
| "process w i (r # rs) processed_list =
    (let ai_res = ai_process w i (title r) (summary r) in
     case paper_obj r (random_choice (choice w i)) ai_res of
       Inl e \<Rightarrow> Inl e
     | Inr obj \<Rightarrow> process w (Suc i) rs (processed_list @ [obj]))"

definition processed :: "world \<Rightarrow> entry list \<Rightarrow> py_error + json list" where
  "processed w raw = (if raw \<noteq> [] then process w 0 raw [] else Inr [])"

text \<open>\<open>processed_list + existing_data\<close>: a list can only be concatenated to a list.\<close>

fun list_plus :: "json list \<Rightarrow> json \<Rightarrow> py_error + json" where
  "list_plus processed_list (JArr existing_data) = Inr (JArr (processed_list @ existing_data))"
| "list_plus processed_list _ = Inl TypeError"

text \<open>\<open>main\<close> up to the value handed to \<open>json.dump\<close>.\<close>

definition final_data :: "world \<Rightarrow> file_state \<Rightarrow> py_error + json" where
  "final_data w fs =
    (let existing_data = get_existing_papers fs in
     case existing_ids_of existing_data of
       Inl e \<Rightarrow> Inl e
     | Inr existing_ids \<Rightarrow>
    (case processed w (raw_papers w existing_ids) of
       Inl e \<Rightarrow> Inl e
     | Inr processed_list \<Rightarrow> list_plus processed_list existing_data))"

text \<open>
  The whole run: the state of the file afterwards, or the exception that ended the run.
  The write replaces the whole file by the document for \<open>final_data\<close>.
\<close>

definition main :: "world \<Rightarrow> file_state \<Rightarrow> py_error + file_state" where
  "main w fs =
    (case final_data w fs of
       Inl e \<Rightarrow> Inl e
     | Inr document \<Rightarrow>
         (case write_error w of Some e \<Rightarrow> Inl e | None \<Rightarrow> Inr (Present (Inr document))))"

subsection \<open>Notions used to state the properties\<close>

text \<open>Reading a field of a record (\<open>None\<close> when the key or the object is missing).\<close>

fun field :: "json \<Rightarrow> string \<Rightarrow> json option" where
  "field (JObj kvs) key = map_of kvs key"
| "field _ key = None"

text \<open>The body of the processing loop for the \<open>i\<close>-th raw paper: enrich, then build.\<close>

definition built :: "world \<Rightarrow> nat \<Rightarrow> entry \<Rightarrow> py_error + json" where
  "built w i r = paper_obj r (random_choice (choice w i)) (ai_process w i (title r) (summary r))"

text \<open>
  The two tests of the filter loop that skip an entry, negated: the id is not known and
  some category is a target category.
\<close>

definition wanted :: "json set \<Rightarrow> entry \<Rightarrow> bool" where
  "wanted existing_ids r = (JStr (paper_id r) \<notin> existing_ids \<and> target_cats r \<noteq> [])"

text \<open>The test of the filter loop that ends it, negated: the entry is not too old.\<close>

definition fresh :: "int \<Rightarrow> entry \<Rightarrow> bool" where
  "fresh time_threshold r = (time_threshold \<le> updated r)"

text \<open>
  The specification's words for a tag: the category with its prefix, the part up to the
  last dot, stripped (a category without a dot has no prefix).
\<close>

definition strip_category_prefix :: "string \<Rightarrow> string" where
  "strip_category_prefix c = rev (takeWhile (\<lambda>x. x \<noteq> CHR ''.'') (rev c))"

text \<open>The persisted collection has no two records with the same id.\<close>

fun unique_ids :: "json \<Rightarrow> bool" where
  "unique_ids (JArr ps) = distinct (map id_of ps)"
| "unique_ids _ = False"

text \<open>The records of the document a run hands to \<open>json.dump\<close> (none if it raised).\<close>

fun records_of :: "py_error + json \<Rightarrow> json list" where
  "records_of (Inr (JArr ps)) = ps"
| "records_of _ = []"

subsection \<open>Concrete runs\<close>

text \<open>
  The clock of the example runs is 2024-11-05 01:00:00 UTC, so the threshold is
  2024-11-04 00:00:00 UTC: \<open>paper_edge\<close> is exactly at it, \<open>paper_old\<close> one
  microsecond before it.
\<close>

definition paper_new :: entry where
  "paper_new =
    \<lparr>entry_id = ''http://arxiv.org/abs/2411.02345v2'', title = ''Sparse maps'',
     summary = ''We study sparse maps.'', categories = [''math.OC'', ''cs.LG'', ''cs.CV''],
     authors = [''A. One'', ''B. Two'', ''C. Three'', ''D. Four'', ''E. Five'', ''F. Six''],
     updated = 1730764800000000, pdf_url = Some ''http://arxiv.org/pdf/2411.02345v2''\<rparr>"

definition paper_edge :: entry where
  "paper_edge =
    \<lparr>entry_id = ''http://arxiv.org/abs/2411.01234v1'', title = ''Agents'',
     summary = ''About agents.'', categories = [''cs.AI''],
     authors = [''G. Seven''],
     updated = 1730678400000000, pdf_url = None\<rparr>"

definition paper_old :: entry where
  "paper_old =
    \<lparr>entry_id = ''http://arxiv.org/abs/2411.00077v1'', title = ''Parsing'',
     summary = ''About parsing.'', categories = [''cs.CL''],
     authors = [''H. Eight''],
     updated = 1730678399999999, pdf_url = None\<rparr>"

definition paper_math :: entry where
  "paper_math =
    \<lparr>entry_id = ''http://arxiv.org/abs/2411.02000v1'', title = ''Graphs'',
     summary = ''About graphs.'', categories = [''math.CO'', ''stat.ML''],
     authors = [''I. Nine''],
     updated = 1730764700000000, pdf_url = None\<rparr>"

definition paper_known :: entry where
  "paper_known =
    \<lparr>entry_id = ''http://arxiv.org/abs/2410.09999v1'', title = ''Known'',
     summary = ''Already stored.'', categories = [''cs.CL''],
     authors = [''J. Ten''],
     updated = 1730700000000000, pdf_url = None\<rparr>"

definition old_record :: json where
  "old_record = JObj [(''id'', JStr ''2410.09999v1''), (''likes'', JNum 3)]"

definition example_file :: file_state where
  "example_file = Present (Inr (JArr [old_record]))"

definition example_world :: world where
  "example_world =
    \<lparr>utc_now = 1730768400000000,
     results = ([paper_new, paper_math, paper_known, paper_edge, paper_old], Some HTTPError),
     chat = (\<lambda>i ttl abstract. if i = 0 then Inl APIError else Inr (JObj [(''innovation'', JStr ''agents'')])),
     choice = (\<lambda>i. 7 * i + 3),
     write_error = None\<rparr>"

text \<open>The same run with a service that always answers with the empty object.\<close>

definition bare_world :: world where
  "bare_world = example_world\<lparr>chat := (\<lambda>i ttl abstract. Inr (JObj []))\<rparr>"

text \<open>A run whose upstream raises after its first entry, and one with nothing eligible.\<close>

definition failing_world :: world where
  "failing_world = example_world\<lparr>results := ([paper_new], Some HTTPError)\<rparr>"

definition quiet_world :: world where
  "quiet_world = example_world\<lparr>results := ([paper_math, paper_known, paper_old], None)\<rparr>"

text \<open>
  Two different entries with identifiers of the old scheme, which names the archive
  before the number: the part after the last slash is the same for both. And a run whose
  upstream yields both, on an empty collection.
\<close>

definition paper_cs_old :: entry where
  "paper_cs_old =
    \<lparr>entry_id = ''http://arxiv.org/abs/cs/0703001v2'', title = ''Search'',
     summary = ''About search.'', categories = [''cs.AI''],
     authors = [''K. Eleven''],
     updated = 1730750000000000, pdf_url = None\<rparr>"

definition paper_math_old :: entry where
  "paper_math_old =
    \<lparr>entry_id = ''http://arxiv.org/abs/math/0703001v2'', title = ''Estimators'',
     summary = ''About estimators.'', categories = [''math.ST'', ''cs.LG''],
     authors = [''L. Twelve''],
     updated = 1730740000000000, pdf_url = None\<rparr>"

definition clash_world :: world where
  "clash_world =
    \<lparr>utc_now = 1730768400000000,
     results = ([paper_cs_old, paper_math_old], None),
     chat = (\<lambda>i ttl abstract. Inl APIError),
     choice = (\<lambda>i. 0),
     write_error = None\<rparr>"

text \<open>A file that holds the same record twice.\<close>

definition doubled_file :: file_state where
  "doubled_file = Present (Inr (JArr [old_record, old_record]))"

section \<open>Properties\<close>

subsection \<open>Splitting strings\<close>

lemma py_split_not_Nil: "py_split sep s \<noteq> []"
  by (induction s) (simp_all add: Let_def)

lemma py_split_tl_Nil: "tl (py_split sep s) = [] \<longleftrightarrow> sep \<notin> set s"
  by (induction s) (auto simp: Let_def py_split_not_Nil)

lemma py_split_hd: "sep \<notin> set s \<Longrightarrow> hd (py_split sep s) = s"
  by (induction s) (auto simp: Let_def)

lemma last_py_split_Cons:
  "last (py_split sep (c # cs)) = (if sep \<in> set cs then last (py_split sep cs) else if c = sep then cs else c # cs)"
proof (cases "sep \<in> set cs")
  case True
  then have "tl (py_split sep cs) \<noteq> []" by (simp add: py_split_tl_Nil)
  then show ?thesis using True
    by (cases "py_split sep cs") (auto simp: Let_def)
next
  case False
  then have t: "tl (py_split sep cs) = []" and h: "hd (py_split sep cs) = cs"
    by (simp_all add: py_split_tl_Nil py_split_hd)
  have "py_split sep cs = [cs]" using t h py_split_not_Nil [of sep cs]
    by (cases "py_split sep cs") auto
  then show ?thesis using False by (simp add: Let_def)
qed

lemma last_part_takeWhile: "last_part sep s = rev (takeWhile (\<lambda>c. c \<noteq> sep) (rev s))"
  unfolding last_part_def
proof (induction s)
  case Nil
  show ?case by simp
next
  case (Cons c cs)
  show ?case
  proof (cases "sep \<in> set cs")
    case True
    then have "\<not> (\<forall>x\<in>set (rev cs). x \<noteq> sep)" by auto
    then show ?thesis using Cons True
      by (simp only: last_py_split_Cons rev.simps takeWhile_append if_True) auto
  next
    case False
    then have "\<And>x. x \<in> set (rev cs) \<Longrightarrow> x \<noteq> sep" by auto
    then have "takeWhile (\<lambda>c. c \<noteq> sep) (rev cs @ [c]) = rev cs @ takeWhile (\<lambda>c. c \<noteq> sep) [c]"
      by (rule takeWhile_append2)
    with False show ?thesis
      by (simp only: last_py_split_Cons rev.simps if_False) simp
  qed
qed

subsection \<open>The filter loop\<close>

lemma results_loop_eq:
  "results_loop ids th rs f acc =
    (case (if \<forall>r\<in>set rs. fresh th r then f else None) of
       Some e \<Rightarrow> Inl e
     | None \<Rightarrow> Inr (acc @ filter (wanted ids) (takeWhile (fresh th) rs)))"
proof (induction rs arbitrary: acc)
  case Nil
  show ?case by (simp split: option.splits)
next
  case (Cons r rs)
  show ?case
  proof (cases "fresh th r")
    case False
    then show ?thesis by (simp add: fresh_def)
  next
    case True
    then have "\<not> updated r < th" by (simp add: fresh_def)
    then show ?thesis using True
      by (simp add: Cons.IH wanted_def split: option.splits)
  qed
qed

lemma results_loop_Inr:
  "results_loop ids th rs f acc = Inr new \<Longrightarrow>
     new = acc @ filter (wanted ids) (takeWhile (fresh th) rs)"
  by (simp add: results_loop_eq split: if_splits option.splits)

lemma results_loop_Inl:
  "results_loop ids th rs f acc = Inl e \<longleftrightarrow> (\<forall>r\<in>set rs. fresh th r) \<and> f = Some e"
  by (simp add: results_loop_eq split: if_splits option.splits)

lemma results_loop_stop:
  "\<forall>x\<in>set pre. fresh th x \<Longrightarrow> \<not> fresh th r \<Longrightarrow>
     results_loop ids th (pre @ r # post) f acc = results_loop ids th pre None acc"
  by (induction pre arbitrary: acc) (auto simp: fresh_def)


lemma fetch_eq:
  "fetch_arxiv_updates w ids =
    results_loop ids (utc_now w - timedelta_hours 25) (fst (results w)) (snd (results w)) []"
  by (simp add: fetch_arxiv_updates_def)

lemma fresh_prefix_sorted:
  assumes "sorted_wrt (\<lambda>a b. updated b \<le> updated a) rs" and "r \<in> set rs" and "fresh th r"
  shows "r \<in> set (takeWhile (fresh th) rs)"
  using assms
proof (induction rs)
  case Nil
  then show ?case by simp
next
  case (Cons x xs)
  show ?case
  proof (cases "r = x")
    case True
    then show ?thesis using Cons.prems by simp
  next
    case False
    then have mem: "r \<in> set xs" using Cons.prems by simp
    then have "updated r \<le> updated x" using Cons.prems by simp
    then have "fresh th x" using Cons.prems(3) by (simp add: fresh_def)
    moreover have "r \<in> set (takeWhile (fresh th) xs)"
      using Cons.IH Cons.prems mem by simp
    ultimately show ?thesis by simp
  qed
qed

lemma raw_papers_cases:
  "raw_papers w ids = [] \<or>
   raw_papers w ids =
     filter (wanted ids) (takeWhile (fresh (utc_now w - timedelta_hours 25)) (fst (results w)))"
proof (cases "fetch_arxiv_updates w ids")
  case (Inl e)
  then show ?thesis by (simp add: raw_papers_def)
next
  case (Inr new)
  then have "new = filter (wanted ids) (takeWhile (fresh (utc_now w - timedelta_hours 25)) (fst (results w)))"
    using results_loop_Inr [of ids _ _ _ "[]" new] by (simp add: fetch_eq)
  then show ?thesis using Inr by (simp add: raw_papers_def)
qed

lemma raw_papers_member:
  assumes "r \<in> set (raw_papers w ids)"
  shows "wanted ids r" and "r \<in> set (fst (results w))"
proof -
  from assms raw_papers_cases [of w ids]
  have mem: "r \<in> set (filter (wanted ids)
      (takeWhile (fresh (utc_now w - timedelta_hours 25)) (fst (results w))))"
    by auto
  then show "wanted ids r" by simp
  from mem have "r \<in> set (takeWhile (fresh (utc_now w - timedelta_hours 25)) (fst (results w)))"
    by simp
  then show "r \<in> set (fst (results w))" by (rule set_takeWhileD [THEN conjunct1])
qed

lemma target_cats_Nil: "target_cats r = [] \<longleftrightarrow> set (categories r) \<inter> set TARGET_CATEGORIES = {}"
  by (auto simp: target_cats_def filter_empty_conv)

lemma raw_papers_categories:
  assumes "r \<in> set (raw_papers w ids)"
  shows "categories r \<noteq> []"
proof -
  have "target_cats r \<noteq> []"
    using raw_papers_member(1) [OF assms] by (simp add: wanted_def)
  then show ?thesis by (auto simp: target_cats_def)
qed

lemma distinct_map_takeWhile:
  "distinct (map f xs) \<Longrightarrow> distinct (map f (takeWhile P xs))"
  by (induction xs) (auto dest: set_takeWhileD)

lemma raw_papers_distinct:
  assumes "distinct (map paper_id (fst (results w)))"
  shows "distinct (map paper_id (raw_papers w ids))"
  using raw_papers_cases [of w ids] assms
  by (auto simp: distinct_map_filter distinct_map_takeWhile)

subsection \<open>The record builder\<close>

lemma paper_obj_Inr_iff:
  "(\<exists>obj. paper_obj r g a = Inr obj) \<longleftrightarrow> is_object a \<and> categories r \<noteq> []"
  by (cases a; cases "categories r") (simp_all add: paper_obj_def)

lemma paper_obj_Inl:
  "paper_obj r g a = Inl e \<Longrightarrow>
     (e = AttributeError \<and> \<not> is_object a) \<or> (e = IndexError \<and> categories r = [])"
  by (cases a; cases "categories r") (auto simp: paper_obj_def)

lemma built_non_object:
  assumes "chat w i (title r) (summary r) = Inr answer" and "\<not> is_object answer"
  shows "built w i r = Inl AttributeError"
  using assms by (cases answer) (simp_all add: built_def ai_process_def paper_obj_def)

lemma paper_obj_id: "paper_obj r g a = Inr obj \<Longrightarrow> id_of obj = Inr (JStr (paper_id r))"
  by (cases a; cases "categories r") (auto simp: paper_obj_def)

lemma paper_obj_tags:
  "paper_obj r g a = Inr obj \<Longrightarrow> field obj ''tags'' = Some (JArr (map JStr (tags_of r)))"
  by (cases a; cases "categories r") (auto simp: paper_obj_def)

lemma tags_of_target: "set (tags_of r) \<subseteq> {''AI'', ''CL'', ''LG'', ''CV''}"
  by (auto simp: tags_of_def TARGET_CATEGORIES_def last_part_takeWhile)

lemma paper_obj_JObj:
  assumes "categories r \<noteq> []"
  shows "\<exists>obj. paper_obj r g (JObj kvs) = Inr obj \<and>
    field obj ''summary'' = Some (JObj [(''innovation'',
      case map_of kvs ''innovation'' of None \<Rightarrow> JStr no_summary | Some v \<Rightarrow> v)]) \<and>
    field obj ''abstract_zh'' =
      Some (case map_of kvs ''abstract_zh'' of None \<Rightarrow> JStr no_translation | Some v \<Rightarrow> v) \<and>
    field obj ''id'' = Some (JStr (paper_id r))"
  using assms by (cases "categories r") (simp_all add: paper_obj_def)

lemma defaults_differ:
  "no_summary \<noteq> summary_unavailable" "no_translation \<noteq> translation_unavailable"
  by (simp_all add: no_summary_def summary_unavailable_def no_translation_def
      translation_unavailable_def)

lemma fallback_object: "is_object fallback"
  by (simp add: fallback_def)

lemma ai_process_raised: "chat w k ttl abstract = Inl e \<Longrightarrow> ai_process w k ttl abstract = fallback"
  by (simp add: ai_process_def)

lemma paper_obj_fallback:
  assumes "paper_obj r g fallback = Inr obj"
  shows "field obj ''id'' = Some (JStr (paper_id r))"
    and "field obj ''summary'' = Some (JObj [(''innovation'', JStr summary_unavailable)])"
    and "field obj ''abstract_zh'' = Some (JStr translation_unavailable)"
  using assms by (cases "categories r"; auto simp: paper_obj_def fallback_def)+

subsection \<open>The processing loop\<close>

lemma process_step:
  "process w i (r # rs) acc =
    (case built w i r of Inl e \<Rightarrow> Inl e | Inr obj \<Rightarrow> process w (Suc i) rs (acc @ [obj]))"
  by (simp add: built_def)

declare process.simps(2) [simp del]

lemma process_Inr:
  "process w i rs acc = Inr N \<Longrightarrow>
     length N = length acc + length rs \<and> take (length acc) N = acc \<and>
     (\<forall>j<length rs. built w (i + j) (rs ! j) = Inr (N ! (length acc + j)))"
proof (induction rs arbitrary: i acc)
  case Nil
  then show ?case by simp
next
  case (Cons r rs)
  from Cons.prems obtain obj where b: "built w i r = Inr obj"
    and p: "process w (Suc i) rs (acc @ [obj]) = Inr N"
    by (auto simp: process_step split: sum.splits)
  from Cons.IH [OF p] have len: "length N = length acc + 1 + length rs"
    and tk: "take (Suc (length acc)) N = acc @ [obj]"
    and nth: "\<forall>j<length rs. built w (Suc i + j) (rs ! j) = Inr (N ! (Suc (length acc) + j))"
    by simp_all
  have "take (length acc) (take (Suc (length acc)) N) = take (length acc) (acc @ [obj])"
    by (simp only: tk)
  then have tk': "take (length acc) N = acc" by simp
  have "(take (Suc (length acc)) N) ! length acc = (acc @ [obj]) ! length acc"
    by (simp only: tk)
  then have at: "N ! length acc = obj" by simp
  have "built w (i + j) ((r # rs) ! j) = Inr (N ! (length acc + j))"
    if "j < length (r # rs)" for j
  proof (cases j)
    case 0
    then show ?thesis using b at by simp
  next
    case (Suc k)
    then have "k < length rs" using that by simp
    then show ?thesis using nth Suc by simp
  qed
  then show ?case using len tk' by simp
qed

lemma process_Inl:
  "process w i rs acc = Inl e \<Longrightarrow>
     \<exists>j<length rs. built w (i + j) (rs ! j) = Inl e"
proof (induction rs arbitrary: i acc)
  case Nil
  then show ?case by simp
next
  case (Cons r rs)
  show ?case
  proof (cases "built w i r")
    case (Inl e')
    then have "e' = e" using Cons.prems by (simp add: process_step)
    then have "built w (i + 0) ((r # rs) ! 0) = Inl e" using Inl by simp
    then show ?thesis by blast
  next
    case (Inr obj)
    then have "process w (Suc i) rs (acc @ [obj]) = Inl e"
      using Cons.prems by (simp add: process_step)
    from Cons.IH [OF this] obtain j where "j < length rs" "built w (Suc i + j) (rs ! j) = Inl e"
      by blast
    then have "Suc j < length (r # rs)" "built w (i + Suc j) ((r # rs) ! Suc j) = Inl e"
      by simp_all
    then show ?thesis by blast
  qed
qed

lemma processed_Inr:
  assumes "processed w raw = Inr N"
  shows "length N = length raw \<and> (\<forall>j<length raw. built w j (raw ! j) = Inr (N ! j))"
proof (cases "raw = []")
  case True
  then show ?thesis using assms by (simp add: processed_def)
next
  case False
  then have "process w 0 raw [] = Inr N" using assms by (simp add: processed_def)
  from process_Inr [OF this] show ?thesis by simp
qed

lemma processed_Inl:
  assumes "processed w raw = Inl e"
  shows "\<exists>j<length raw. built w j (raw ! j) = Inl e"
proof (cases "raw = []")
  case True
  then show ?thesis using assms by (simp add: processed_def)
next
  case False
  then have "process w 0 raw [] = Inl e" using assms by (simp add: processed_def)
  from process_Inl [OF this] show ?thesis by simp
qed

lemma built_raw_no_IndexError:
  assumes "r \<in> set (raw_papers w ids)"
  shows "built w j r \<noteq> Inl IndexError"
proof
  assume "built w j r = Inl IndexError"
  then have "categories r = []"
    using paper_obj_Inl [of r _ _ IndexError] by (auto simp: built_def)
  moreover have "target_cats r \<noteq> []"
    using raw_papers_member(1) [OF assms] by (simp add: wanted_def)
  ultimately show False by (simp add: target_cats_def)
qed

lemma processed_succeeds:
  assumes "\<forall>j<length raw. is_object (ai_process w j (title (raw ! j)) (summary (raw ! j)))"
    and "\<forall>j<length raw. categories (raw ! j) \<noteq> []"
  shows "\<exists>N. processed w raw = Inr N"
proof (cases "processed w raw")
  case (Inr N)
  then show ?thesis by simp
next
  case (Inl e)
  from processed_Inl [OF this] obtain j where j: "j < length raw"
    and b: "built w j (raw ! j) = Inl e" by blast
  have "\<exists>obj. built w j (raw ! j) = Inr obj"
    unfolding built_def using assms j by (simp add: paper_obj_Inr_iff)
  then show ?thesis using b by simp
qed

lemma processed_ids:
  assumes "processed w raw = Inr N"
  shows "map id_of N = map (\<lambda>r. Inr (JStr (paper_id r))) raw"
proof (rule nth_equalityI)
  from processed_Inr [OF assms] have len: "length N = length raw"
    and nth: "\<forall>j<length raw. built w j (raw ! j) = Inr (N ! j)" by simp_all
  show "length (map id_of N) = length (map (\<lambda>r. Inr (JStr (paper_id r))) raw)"
    using len by simp
  fix j assume "j < length (map id_of N)"
  then have j: "j < length raw" using len by simp
  then have "built w j (raw ! j) = Inr (N ! j)" using nth by simp
  then have "id_of (N ! j) = Inr (JStr (paper_id (raw ! j)))"
    unfolding built_def by (rule paper_obj_id)
  then show "map id_of N ! j = map (\<lambda>r. Inr (JStr (paper_id r))) raw ! j"
    using j len by simp
qed

subsection \<open>The known ids\<close>

lemma collect_ids_Inr:
  "collect_ids ps acc = Inr ids \<Longrightarrow>
     ids = acc \<union> {v. Inr v \<in> set (map id_of ps)} \<and> (\<forall>p\<in>set ps. \<exists>v. id_of p = Inr v)"
proof (induction ps arbitrary: acc)
  case Nil
  then show ?case by simp
next
  case (Cons p ps)
  from Cons.prems obtain v where v: "id_of p = Inr v" and c: "collect_ids ps (insert v acc) = Inr ids"
    by (auto split: sum.splits)
  from Cons.IH [OF c] show ?case using v by auto
qed

lemma collect_ids_Inl: "collect_ids ps acc = Inl e \<Longrightarrow> e = TypeError \<or> e = KeyError"
proof (induction ps arbitrary: acc)
  case Nil
  then show ?case by simp
next
  case (Cons p ps)
  show ?case
  proof (cases "id_of p")
    case (Inl e')
    then have "e' = e" using Cons.prems by simp
    then show ?thesis using Inl
      by (cases p) (auto split: option.splits if_splits)
  next
    case (Inr v)
    then show ?thesis using Cons by simp
  qed
qed

lemma existing_ids_of_Inl: "existing_ids_of d = Inl e \<Longrightarrow> e = TypeError \<or> e = KeyError"
  by (cases d) (auto dest: collect_ids_Inl)

lemma existing_ids_member:
  assumes "existing_ids_of (JArr E) = Inr ids" and "p \<in> set E"
  shows "\<exists>v. id_of p = Inr v \<and> v \<in> ids"
proof -
  from assms(1) have "collect_ids E {} = Inr ids" by simp
  from collect_ids_Inr [OF this]
  have all: "ids = {v. Inr v \<in> set (map id_of E)}" and ok: "\<forall>p\<in>set E. \<exists>v. id_of p = Inr v"
    by simp_all
  from ok assms(2) obtain v where v: "id_of p = Inr v" by blast
  then have "Inr v \<in> set (map id_of E)" using assms(2) by force
  then show ?thesis using v all by simp
qed

subsection \<open>Merging and writing\<close>

lemma list_plus_Inl: "list_plus N d = Inl e \<Longrightarrow> e = TypeError"
  by (cases d) auto

lemma final_data_merge:
  assumes "get_existing_papers fs = JArr E"
    and "existing_ids_of (JArr E) = Inr ids"
    and "processed w (raw_papers w ids) = Inr N"
  shows "final_data w fs = Inr (JArr (N @ E))"
    and "write_error w = None \<Longrightarrow> main w fs = Inr (Present (Inr (JArr (N @ E))))"
proof -
  show "final_data w fs = Inr (JArr (N @ E))"
    using assms by (simp add: final_data_def)
  then show "write_error w = None \<Longrightarrow> main w fs = Inr (Present (Inr (JArr (N @ E))))"
    by (simp add: main_def)
qed

lemma final_data_Inr:
  assumes "final_data w fs = Inr d"
  shows "\<exists>ids N E. existing_ids_of (get_existing_papers fs) = Inr ids \<and>
    processed w (raw_papers w ids) = Inr N \<and> get_existing_papers fs = JArr E \<and>
    d = JArr (N @ E)"
proof -
  from assms obtain ids where ids: "existing_ids_of (get_existing_papers fs) = Inr ids"
    by (cases "existing_ids_of (get_existing_papers fs)") (auto simp: final_data_def)
  with assms obtain N where N: "processed w (raw_papers w ids) = Inr N"
    by (cases "processed w (raw_papers w ids)") (auto simp: final_data_def)
  with assms ids have "list_plus N (get_existing_papers fs) = Inr d"
    by (simp add: final_data_def)
  then obtain E where "get_existing_papers fs = JArr E" "d = JArr (N @ E)"
    by (cases "get_existing_papers fs") auto
  with ids N show ?thesis by blast
qed

subsection \<open>The example run\<close>

lemma example_loaded: "get_existing_papers example_file = JArr [old_record]"
  by (simp add: example_file_def)

lemma example_ids': "existing_ids_of (JArr [old_record]) = Inr {JStr ''2410.09999v1''}"
  by (simp add: old_record_def)

lemma example_raw_papers:
  "raw_papers example_world {JStr ''2410.09999v1''} = [paper_new, paper_edge]"
  by code_simp

lemma example_processed:
  "processed example_world [paper_new, paper_edge] =
     Inr (projr (processed example_world [paper_new, paper_edge]))"
proof -
  have "\<not> isl (processed example_world [paper_new, paper_edge])"
    by code_simp
  then show ?thesis by simp
qed

lemma example_paper_ids:
  "paper_id paper_new = ''2411.02345v2''" "paper_id paper_math = ''2411.02000v1''"
  "paper_id paper_known = ''2410.09999v1''" "paper_id paper_edge = ''2411.01234v1''"
  "paper_id paper_old = ''2411.00077v1''"
  by (simp_all add: paper_id_def last_part_takeWhile paper_new_def paper_math_def
      paper_known_def paper_edge_def paper_old_def)

lemma bare_raw_papers:
  "raw_papers bare_world {JStr ''2410.09999v1''} = [paper_new, paper_edge]"
  by code_simp

lemma clash_raw_papers: "raw_papers clash_world {} = [paper_cs_old, paper_math_old]"
  by code_simp

lemma clash_paper_ids:
  "paper_id paper_cs_old = ''0703001v2''" "paper_id paper_math_old = ''0703001v2''"
  by (simp_all add: paper_id_def last_part_takeWhile paper_cs_old_def paper_math_old_def)

lemma quiet_raw_papers: "raw_papers quiet_world {JStr ''2410.09999v1''} = []"
  by code_simp

section \<open>The claims\<close>

subsection \<open>C1: deduplication against the known ids\<close>

text \<open>
  C1, as the code has it. Let the loaded collection be the list \<open>E\<close>, with the id set
  built from it. An entry whose id is in that set is never a raw paper, and every record
  of the new batch carries the id of a raw paper, which is not in the set. If moreover
  the records of \<open>E\<close> have pairwise different ids and the upstream yields no two entries
  with the same id, then the document handed to the write has no two records with the
  same id.
\<close>

theorem dedup_against_existing:
  assumes loaded: "get_existing_papers fs = JArr E"
    and ids: "existing_ids_of (JArr E) = Inr ids"
  shows "(\<forall>r. JStr (paper_id r) \<in> ids \<longrightarrow> r \<notin> set (raw_papers w ids)) \<and>
    (\<forall>N. processed w (raw_papers w ids) = Inr N \<longrightarrow>
       (\<forall>p\<in>set N. \<exists>r\<in>set (raw_papers w ids).
          id_of p = Inr (JStr (paper_id r)) \<and> JStr (paper_id r) \<notin> ids)) \<and>
    (distinct (map id_of E) \<and> distinct (map paper_id (fst (results w))) \<longrightarrow>
       (\<forall>d. final_data w fs = Inr d \<longrightarrow> unique_ids d))"
proof (intro conjI allI impI ballI)
  fix r assume "JStr (paper_id r) \<in> ids"
  then have "\<not> wanted ids r" by (simp add: wanted_def)
  then show "r \<notin> set (raw_papers w ids)" using raw_papers_member(1) by blast
next
  fix N p assume N: "processed w (raw_papers w ids) = Inr N" and p: "p \<in> set N"
  from p obtain j where j: "j < length N" and pj: "p = N ! j"
    by (auto simp: in_set_conv_nth)
  from processed_Inr [OF N] j have len: "length N = length (raw_papers w ids)"
    and b: "built w j (raw_papers w ids ! j) = Inr (N ! j)" by simp_all
  have mem: "raw_papers w ids ! j \<in> set (raw_papers w ids)" using j len by simp
  have "id_of (N ! j) = Inr (JStr (paper_id (raw_papers w ids ! j)))"
    using b unfolding built_def by (rule paper_obj_id)
  then have "id_of p = Inr (JStr (paper_id (raw_papers w ids ! j)))"
    using pj by simp
  moreover have "JStr (paper_id (raw_papers w ids ! j)) \<notin> ids"
    using raw_papers_member(1) [OF mem] by (simp add: wanted_def)
  ultimately show "\<exists>r\<in>set (raw_papers w ids).
      id_of p = Inr (JStr (paper_id r)) \<and> JStr (paper_id r) \<notin> ids"
    using mem by blast
next
  fix d
  assume dist: "distinct (map id_of E) \<and> distinct (map paper_id (fst (results w)))"
    and d: "final_data w fs = Inr d"
  from final_data_Inr [OF d] loaded ids obtain N
    where N: "processed w (raw_papers w ids) = Inr N" and out: "d = JArr (N @ E)"
    by auto
  have idsN: "map id_of N = map (\<lambda>r. Inr (JStr (paper_id r))) (raw_papers w ids)"
    by (rule processed_ids [OF N])
  have "inj_on (\<lambda>s. (Inr (JStr s) :: py_error + json)) (set (map paper_id (raw_papers w ids)))"
    by (simp add: inj_on_def)
  then have "distinct (map (\<lambda>s. (Inr (JStr s) :: py_error + json)) (map paper_id (raw_papers w ids)))"
    using raw_papers_distinct [of w ids] dist by (simp only: distinct_map)
  then have dN: "distinct (map id_of N)" by (simp add: idsN comp_def)
  have disj: "set (map id_of N) \<inter> set (map id_of E) = {}"
  proof (rule ccontr)
    assume "set (map id_of N) \<inter> set (map id_of E) \<noteq> {}"
    then obtain x where xN: "x \<in> set (map id_of N)" and xE: "x \<in> set (map id_of E)" by blast
    from xN idsN obtain r where r: "r \<in> set (raw_papers w ids)" and xr: "x = Inr (JStr (paper_id r))"
      by auto
    from xE obtain p where p: "p \<in> set E" and xp: "x = id_of p" by auto
    from existing_ids_member [OF ids p] xp xr have "JStr (paper_id r) \<in> ids" by auto
    moreover have "JStr (paper_id r) \<notin> ids"
      using raw_papers_member(1) [OF r] by (simp add: wanted_def)
    ultimately show False by simp
  qed
  show "unique_ids d" using out dN dist disj by simp
qed

theorem dedup_against_existing_witness:
  "JStr (paper_id paper_known) \<in> {JStr ''2410.09999v1''} \<and>
   paper_known \<in> set (fst (results example_world)) \<and>
   paper_known \<notin> set (raw_papers example_world {JStr ''2410.09999v1''}) \<and>
   distinct (map id_of [old_record]) \<and>
   distinct (map paper_id (fst (results example_world))) \<and>
   map id_of (records_of (final_data example_world example_file)) =
     [Inr (JStr ''2411.02345v2''), Inr (JStr ''2411.01234v1''), Inr (JStr ''2410.09999v1'')] \<and>
   unique_ids (JArr (records_of (final_data example_world example_file)))"
proof -
  let ?N = "projr (processed example_world [paper_new, paper_edge])"
  have p: "processed example_world (raw_papers example_world {JStr ''2410.09999v1''}) = Inr ?N"
    using example_processed by (simp add: example_raw_papers)
  have f: "final_data example_world example_file = Inr (JArr (?N @ [old_record]))"
    by (rule final_data_merge(1) [OF example_loaded example_ids' p])
  have known: "JStr (paper_id paper_known) \<in> {JStr ''2410.09999v1''}"
    by (simp add: example_paper_ids)
  have up: "fst (results example_world) = [paper_new, paper_math, paper_known, paper_edge, paper_old]"
    by (simp add: example_world_def)
  have d1: "distinct (map id_of [old_record])" by simp
  have d2: "distinct (map paper_id (fst (results example_world)))"
    by (simp add: up example_paper_ids)
  note dedup = dedup_against_existing [OF example_loaded example_ids', of example_world]
  from dedup known have skipped: "paper_known \<notin> set (raw_papers example_world {JStr ''2410.09999v1''})"
    by blast
  from dedup d1 d2 f have u: "unique_ids (JArr (?N @ [old_record]))"
    by blast
  have "map id_of ?N = [Inr (JStr ''2411.02345v2''), Inr (JStr ''2411.01234v1'')]"
    using processed_ids [OF example_processed] by (simp add: example_paper_ids)
  then have "map id_of (?N @ [old_record]) =
     [Inr (JStr ''2411.02345v2''), Inr (JStr ''2411.01234v1''), Inr (JStr ''2410.09999v1'')]"
    by (simp add: old_record_def)
  then show ?thesis using known skipped d1 d2 u f up by simp
qed

text \<open>
  C1 as stated fails in two ways. The id set is built before the fetch and not extended
  while the entries are consumed: when the upstream yields two entries whose
  identifiers end in the same part, here \<open>cs/0703001v2\<close> and \<open>math/0703001v2\<close>, both
  pass, and on an empty collection the written document has two records with the id
  \<open>0703001v2\<close>. And the loaded collection is written back as it is: a file that holds
  a record twice still holds it twice after a run without new papers.
\<close>

theorem dedup_counterexample:
  "get_existing_papers Absent = JArr [] \<and>
   existing_ids_of (JArr []) = Inr {} \<and>
   fst (results clash_world) = [paper_cs_old, paper_math_old] \<and>
   entry_id paper_cs_old \<noteq> entry_id paper_math_old \<and>
   map id_of (records_of (final_data clash_world Absent)) =
     [Inr (JStr ''0703001v2''), Inr (JStr ''0703001v2'')] \<and>
   \<not> unique_ids (JArr (records_of (final_data clash_world Absent))) \<and>
   main clash_world Absent =
     Inr (Present (Inr (JArr (records_of (final_data clash_world Absent))))) \<and>
   main quiet_world doubled_file = Inr doubled_file \<and>
   \<not> unique_ids (JArr (records_of (final_data quiet_world doubled_file)))"
proof -
  let ?raw = "[paper_cs_old, paper_math_old]"
  have "\<forall>j<length ?raw. is_object (ai_process clash_world j (title (?raw ! j)) (summary (?raw ! j)))"
    by (simp add: ai_process_def clash_world_def fallback_object)
  moreover have "\<forall>j<length ?raw. categories (?raw ! j) \<noteq> []"
    by (simp add: paper_cs_old_def paper_math_old_def less_Suc_eq)
  ultimately obtain N where N: "processed clash_world ?raw = Inr N"
    using processed_succeeds [of ?raw clash_world] by blast
  have loaded: "get_existing_papers Absent = JArr []" by simp
  have none: "existing_ids_of (JArr []) = Inr {}" by simp
  have p: "processed clash_world (raw_papers clash_world {}) = Inr N"
    using N by (simp add: clash_raw_papers)
  have w: "write_error clash_world = None" by (simp add: clash_world_def)
  from final_data_merge [OF loaded none p] w
  have f: "final_data clash_world Absent = Inr (JArr N)"
    and m: "main clash_world Absent = Inr (Present (Inr (JArr N)))"
    by simp_all
  have ids: "map id_of N = [Inr (JStr ''0703001v2''), Inr (JStr ''0703001v2'')]"
    using processed_ids [OF N] by (simp add: clash_paper_ids)
  then have clash: "\<not> distinct (map id_of N)" by simp
  have differ: "entry_id paper_cs_old \<noteq> entry_id paper_math_old"
    by (simp add: paper_cs_old_def paper_math_old_def)
  have loaded2: "get_existing_papers doubled_file = JArr [old_record, old_record]"
    by (simp add: doubled_file_def)
  have ids2: "existing_ids_of (JArr [old_record, old_record]) = Inr {JStr ''2410.09999v1''}"
    by (simp add: old_record_def)
  have p2: "processed quiet_world (raw_papers quiet_world {JStr ''2410.09999v1''}) = Inr []"
    by (simp add: quiet_raw_papers processed_def)
  have w2: "write_error quiet_world = None"
    by (simp add: quiet_world_def example_world_def)
  from final_data_merge [OF loaded2 ids2 p2] w2
  have f2: "final_data quiet_world doubled_file = Inr (JArr [old_record, old_record])"
    and m2: "main quiet_world doubled_file = Inr doubled_file"
    by (simp_all add: doubled_file_def)
  from f m ids clash differ f2 m2 show ?thesis by (simp add: clash_world_def)
qed

subsection \<open>C2: the time cutoff\<close>

text \<open>
  C2. Let the generator yield \<open>rs\<close> (and then stop or raise). If \<open>rs\<close> is in descending
  order of update time, then in a fetch that returns, an entry updated at or after
  \<open>now - 25h\<close> is emitted exactly when it passes the two remaining filters (id not
  known, some target category). And whatever the order: if the entry at position \<open>i\<close> is
  the first one updated strictly before \<open>now - 25h\<close>, the fetch is the fetch of a
  generator that yields the \<open>i\<close> entries before it and stops, so nothing from position
  \<open>i\<close> on is examined or emitted, not even an exception the generator would raise later.
  The fetch raises only when no entry is that old and the generator raises in the end.
\<close>

theorem time_cutoff_boundary:
  assumes "results w = (rs, failure)"
  shows
    "(sorted_wrt (\<lambda>a b. updated b \<le> updated a) rs \<longrightarrow>
       (\<forall>new. fetch_arxiv_updates w ids = Inr new \<longrightarrow>
          (\<forall>r\<in>set rs. utc_now w - timedelta_hours 25 \<le> updated r \<longrightarrow>
             (r \<in> set new \<longleftrightarrow> JStr (paper_id r) \<notin> ids \<and> target_cats r \<noteq> [])))) \<and>
     (\<forall>i<length rs.
        updated (rs ! i) < utc_now w - timedelta_hours 25 \<and>
        (\<forall>j<i. utc_now w - timedelta_hours 25 \<le> updated (rs ! j)) \<longrightarrow>
        fetch_arxiv_updates w ids = fetch_arxiv_updates (w\<lparr>results := (take i rs, None)\<rparr>) ids) \<and>
     (\<forall>e. fetch_arxiv_updates w ids = Inl e \<longleftrightarrow>
        (\<forall>r\<in>set rs. utc_now w - timedelta_hours 25 \<le> updated r) \<and> failure = Some e)"
proof (intro conjI impI allI ballI)
  fix new r
  let ?th = "utc_now w - timedelta_hours 25"
  assume desc: "sorted_wrt (\<lambda>a b. updated b \<le> updated a) rs"
    and new: "fetch_arxiv_updates w ids = Inr new"
    and r: "r \<in> set rs" and at: "?th \<le> updated r"
  from new assms have "new = filter (wanted ids) (takeWhile (fresh ?th) rs)"
    using results_loop_Inr [of ids ?th rs failure "[]" new] by (simp add: fetch_eq)
  moreover have "r \<in> set (takeWhile (fresh ?th) rs)"
    using desc r at by (intro fresh_prefix_sorted) (simp_all add: fresh_def)
  ultimately show "r \<in> set new \<longleftrightarrow> JStr (paper_id r) \<notin> ids \<and> target_cats r \<noteq> []"
    by (simp add: wanted_def)
next
  fix i
  let ?th = "utc_now w - timedelta_hours 25"
  assume i: "i < length rs"
    and stop: "updated (rs ! i) < ?th \<and> (\<forall>j<i. ?th \<le> updated (rs ! j))"
  have split: "rs = take i rs @ rs ! i # drop (Suc i) rs"
    using i by (simp add: id_take_nth_drop)
  have pre: "\<forall>x\<in>set (take i rs). fresh ?th x"
  proof
    fix x assume "x \<in> set (take i rs)"
    then obtain j where "j < length (take i rs)" "x = take i rs ! j"
      by (auto simp: in_set_conv_nth)
    then have "j < i" "x = rs ! j" by simp_all
    then show "fresh ?th x" using stop by (simp add: fresh_def)
  qed
  have "\<not> fresh ?th (rs ! i)" using stop by (simp add: fresh_def)
  from results_loop_stop [OF pre this, of ids "drop (Suc i) rs" failure "[]"] split
  have "results_loop ids ?th rs failure [] = results_loop ids ?th (take i rs) None []"
    by simp
  then show "fetch_arxiv_updates w ids = fetch_arxiv_updates (w\<lparr>results := (take i rs, None)\<rparr>) ids"
    using assms by (simp add: fetch_eq)
next
  fix e
  show "fetch_arxiv_updates w ids = Inl e \<longleftrightarrow>
      (\<forall>r\<in>set rs. utc_now w - timedelta_hours 25 \<le> updated r) \<and> failure = Some e"
    using assms by (simp add: fetch_eq results_loop_Inl fresh_def)
qed


theorem time_cutoff_boundary_witness:
  "sorted_wrt (\<lambda>a b. updated b \<le> updated a)
     [paper_new, paper_math, paper_known, paper_edge, paper_old] \<and>
   updated paper_edge = utc_now example_world - timedelta_hours 25 \<and>
   updated paper_old < utc_now example_world - timedelta_hours 25 \<and>
   fetch_arxiv_updates example_world {JStr ''2410.09999v1''} = Inr [paper_new, paper_edge] \<and>
   (paper_edge \<in> set [paper_new, paper_edge]) =
     (JStr (paper_id paper_edge) \<notin> {JStr ''2410.09999v1''} \<and> target_cats paper_edge \<noteq> []) \<and>
   fetch_arxiv_updates example_world {JStr ''2410.09999v1''} =
     fetch_arxiv_updates
       (example_world\<lparr>results := ([paper_new, paper_math, paper_known, paper_edge], None)\<rparr>)
       {JStr ''2410.09999v1''}"
proof -
  let ?rs = "[paper_new, paper_math, paper_known, paper_edge, paper_old]"
  let ?ids = "{JStr ''2410.09999v1''}"
  have res: "results example_world = (?rs, Some HTTPError)"
    by (simp add: example_world_def)
  have times: "updated paper_new = 1730764800000000" "updated paper_math = 1730764700000000"
    "updated paper_known = 1730700000000000"
    "updated paper_edge = 1730678400000000" "updated paper_old = 1730678399999999"
    "utc_now example_world - timedelta_hours 25 = 1730678400000000"
    by (simp_all add: paper_new_def paper_math_def paper_known_def paper_edge_def
        paper_old_def example_world_def timedelta_hours_def)
  have desc: "sorted_wrt (\<lambda>a b. updated b \<le> updated a) ?rs"
    by (simp add: times)
  have fetch: "fetch_arxiv_updates example_world ?ids = Inr [paper_new, paper_edge]"
    by code_simp
  note cutoff = time_cutoff_boundary [OF res, of ?ids]
  have eligible: "(paper_edge \<in> set [paper_new, paper_edge]) =
     (JStr (paper_id paper_edge) \<notin> ?ids \<and> target_cats paper_edge \<noteq> [])"
    using cutoff [THEN conjunct1, rule_format, OF desc fetch, of paper_edge]
    by (simp add: times)
  have "fetch_arxiv_updates example_world ?ids =
     fetch_arxiv_updates (example_world\<lparr>results := (take 4 ?rs, None)\<rparr>) ?ids"
    using cutoff [THEN conjunct2, THEN conjunct1, rule_format, of 4]
    by (simp add: times less_Suc_eq eval_nat_numeral)
  then show ?thesis using desc fetch eligible by (simp add: times)
qed

subsection \<open>C3: an enrichment call that raises\<close>

text \<open>
  C3. Whatever the title and the abstract, a call whose request or parsing raises
  returns the placeholder pair, and the processing loop, at a raw paper whose call
  raises, builds a record and goes on with the next paper. In a run on a loaded list \<open>E\<close> in which no enrichment
  call answers with a JSON value other than an object, if the call for the \<open>i\<close>-th raw
  paper raises, the run reaches the write with a batch \<open>N\<close> of one record per raw paper
  in front of \<open>E\<close>; the \<open>i\<close>-th record has that paper's id and the two placeholders as
  its summary and translation; and unless the write raises, the file holds the document.
\<close>

theorem enrichment_fallback:
  assumes loaded: "get_existing_papers fs = JArr E"
    and ids: "existing_ids_of (JArr E) = Inr ids"
    and raw: "raw = raw_papers w ids"
    and usable: "\<forall>j<length raw. \<forall>v.
        chat w j (title (raw ! j)) (summary (raw ! j)) = Inr v \<longrightarrow> is_object v"
    and i: "i < length raw"
    and raised: "chat w i (title (raw ! i)) (summary (raw ! i)) = Inl e"
  shows "(\<forall>k ttl abstract e'.
        chat w k ttl abstract = Inl e' \<longrightarrow> ai_process w k ttl abstract = fallback) \<and>
    (\<forall>k r rs acc e'.
        r \<in> set raw \<and> chat w k (title r) (summary r) = Inl e' \<longrightarrow>
        (\<exists>obj. built w k r = Inr obj \<and>
           process w k (r # rs) acc = process w (Suc k) rs (acc @ [obj]))) \<and>
    (\<exists>N. final_data w fs = Inr (JArr (N @ E)) \<and> length N = length raw \<and>
       field (N ! i) ''id'' = Some (JStr (paper_id (raw ! i))) \<and>
       field (N ! i) ''summary'' = Some (JObj [(''innovation'', JStr summary_unavailable)]) \<and>
       field (N ! i) ''abstract_zh'' = Some (JStr translation_unavailable) \<and>
       (write_error w = None \<longrightarrow> main w fs = Inr (Present (Inr (JArr (N @ E))))))"
proof (intro conjI)
  show "\<forall>k ttl abstract e'.
        chat w k ttl abstract = Inl e' \<longrightarrow> ai_process w k ttl abstract = fallback"
    by (simp add: ai_process_raised)
next
  show "\<forall>k r rs acc e'.
        r \<in> set raw \<and> chat w k (title r) (summary r) = Inl e' \<longrightarrow>
        (\<exists>obj. built w k r = Inr obj \<and>
           process w k (r # rs) acc = process w (Suc k) rs (acc @ [obj]))"
  proof (intro allI impI)
    fix k r rs acc e'
    assume a: "r \<in> set raw \<and> chat w k (title r) (summary r) = Inl e'"
    then have "categories r \<noteq> []" using raw raw_papers_categories by blast
    moreover have "ai_process w k (title r) (summary r) = fallback"
      using a by (simp add: ai_process_raised)
    ultimately obtain obj where obj: "built w k r = Inr obj"
      using paper_obj_Inr_iff [of r "random_choice (choice w k)" fallback]
      by (auto simp: built_def fallback_object)
    then have "process w k (r # rs) acc = process w (Suc k) rs (acc @ [obj])"
      by (simp add: process_step)
    with obj show "\<exists>obj. built w k r = Inr obj \<and>
           process w k (r # rs) acc = process w (Suc k) rs (acc @ [obj])"
      by blast
  qed
next
  have objects: "\<forall>j<length raw. is_object (ai_process w j (title (raw ! j)) (summary (raw ! j)))"
  proof (intro allI impI)
    fix j assume j: "j < length raw"
    show "is_object (ai_process w j (title (raw ! j)) (summary (raw ! j)))"
    proof (cases "chat w j (title (raw ! j)) (summary (raw ! j))")
      case (Inl e')
      then show ?thesis by (simp add: ai_process_raised fallback_object)
    next
      case (Inr v)
      then have "is_object v" using usable j by blast
      then show ?thesis using Inr by (simp add: ai_process_def)
    qed
  qed
  have cats: "\<forall>j<length raw. categories (raw ! j) \<noteq> []"
    using raw raw_papers_categories [of _ w ids] by simp
  from processed_succeeds [OF objects cats] obtain N where N: "processed w raw = Inr N"
    by blast
  from processed_Inr [OF N] i have len: "length N = length raw"
    and "built w i (raw ! i) = Inr (N ! i)" by simp_all
  then have obj: "paper_obj (raw ! i) (random_choice (choice w i)) fallback = Inr (N ! i)"
    using raised by (simp add: built_def ai_process_raised)
  have N': "processed w (raw_papers w ids) = Inr N" using N raw by simp
  have "final_data w fs = Inr (JArr (N @ E)) \<and> length N = length raw \<and>
       field (N ! i) ''id'' = Some (JStr (paper_id (raw ! i))) \<and>
       field (N ! i) ''summary'' = Some (JObj [(''innovation'', JStr summary_unavailable)]) \<and>
       field (N ! i) ''abstract_zh'' = Some (JStr translation_unavailable) \<and>
       (write_error w = None \<longrightarrow> main w fs = Inr (Present (Inr (JArr (N @ E)))))"
    using final_data_merge [OF loaded ids N'] len paper_obj_fallback [OF obj] by simp
  then show "\<exists>N. final_data w fs = Inr (JArr (N @ E)) \<and> length N = length raw \<and>
       field (N ! i) ''id'' = Some (JStr (paper_id (raw ! i))) \<and>
       field (N ! i) ''summary'' = Some (JObj [(''innovation'', JStr summary_unavailable)]) \<and>
       field (N ! i) ''abstract_zh'' = Some (JStr translation_unavailable) \<and>
       (write_error w = None \<longrightarrow> main w fs = Inr (Present (Inr (JArr (N @ E)))))"
    by (intro exI [of _ N])
qed

theorem enrichment_fallback_witness:
  "chat example_world 0 (title paper_new) (summary paper_new) = Inl APIError \<and>
   ai_process example_world 0 (title paper_new) (summary paper_new) = fallback \<and>
   length (records_of (final_data example_world example_file)) = 3 \<and>
   field (records_of (final_data example_world example_file) ! 0) ''id'' =
     Some (JStr ''2411.02345v2'') \<and>
   field (records_of (final_data example_world example_file) ! 0) ''summary'' =
     Some (JObj [(''innovation'', JStr summary_unavailable)]) \<and>
   field (records_of (final_data example_world example_file) ! 0) ''abstract_zh'' =
     Some (JStr translation_unavailable) \<and>
   main example_world example_file =
     Inr (Present (Inr (JArr (records_of (final_data example_world example_file)))))"
proof -
  let ?raw = "[paper_new, paper_edge]"
  have raw: "?raw = raw_papers example_world {JStr ''2410.09999v1''}"
    by (simp add: example_raw_papers)
  have usable: "\<forall>j<length ?raw. \<forall>v.
      chat example_world j (title (?raw ! j)) (summary (?raw ! j)) = Inr v \<longrightarrow> is_object v"
    by (auto simp: example_world_def)
  have i: "0 < length ?raw" by simp
  have raised: "chat example_world 0 (title (?raw ! 0)) (summary (?raw ! 0)) = Inl APIError"
    by (simp add: example_world_def)
  have w: "write_error example_world = None" by (simp add: example_world_def)
  have pid: "paper_id paper_new = ''2411.02345v2''"
    by (simp add: paper_id_def last_part_takeWhile paper_new_def)
  from enrichment_fallback [OF example_loaded example_ids' raw usable i raised]
  obtain N where f: "final_data example_world example_file = Inr (JArr (N @ [old_record]))"
    and len: "length N = 2"
    and fields: "field (N ! 0) ''id'' = Some (JStr (paper_id paper_new))"
      "field (N ! 0) ''summary'' = Some (JObj [(''innovation'', JStr summary_unavailable)])"
      "field (N ! 0) ''abstract_zh'' = Some (JStr translation_unavailable)"
    and m: "main example_world example_file = Inr (Present (Inr (JArr (N @ [old_record]))))"
    and a: "ai_process example_world 0 (title paper_new) (summary paper_new) = fallback"
    using w raised by auto
  have "(N @ [old_record]) ! 0 = N ! 0" using len by (simp add: nth_append)
  then show ?thesis using f len fields m a raised pid by simp
qed

subsection \<open>C4: the merge order\<close>

text \<open>
  C4. For a loaded collection \<open>E\<close> (with the id set built from it) and a batch \<open>N\<close>
  built from the raw papers of the run, the document handed to the write is \<open>N\<close>
  followed by \<open>E\<close>; it has as many records as \<open>E\<close> and \<open>N\<close> together, \<open>N\<close> has one
  record per raw paper, and unless the write itself raises, the file holds that document
  afterwards.
\<close>

theorem merge_order:
  assumes "get_existing_papers fs = JArr E"
    and "existing_ids_of (JArr E) = Inr ids"
    and "processed w (raw_papers w ids) = Inr N"
  shows "final_data w fs = Inr (JArr (N @ E)) \<and>
    length (N @ E) = length E + length N \<and>
    length N = length (raw_papers w ids) \<and>
    (write_error w = None \<longrightarrow> main w fs = Inr (Present (Inr (JArr (N @ E)))))"
proof -
  have "length N = length (raw_papers w ids)"
    using processed_Inr [OF assms(3)] by simp
  then show ?thesis using final_data_merge [OF assms] by simp
qed

theorem merge_order_witness:
  "get_existing_papers example_file = JArr [old_record] \<and>
   final_data example_world example_file =
     Inr (JArr (projr (processed example_world [paper_new, paper_edge]) @ [old_record])) \<and>
   length (projr (processed example_world [paper_new, paper_edge]) @ [old_record]) = 3 \<and>
   main example_world example_file =
     Inr (Present (Inr (JArr
       (projr (processed example_world [paper_new, paper_edge]) @ [old_record]))))"
proof -
  have p: "processed example_world (raw_papers example_world {JStr ''2410.09999v1''}) =
     Inr (projr (processed example_world [paper_new, paper_edge]))"
    using example_processed by (simp add: example_raw_papers)
  have "write_error example_world = None" by (simp add: example_world_def)
  then show ?thesis
    using merge_order [OF example_loaded example_ids' p]
    by (simp add: example_loaded example_raw_papers)
qed

subsection \<open>C5: the category filter\<close>

text \<open>
  C5. An entry none of whose categories is a target category is never among the raw
  papers of a run, whatever its update time, the known ids and the rest of the upstream
  sequence; and every record of the new batch is built from a raw paper, so from another
  entry.
\<close>

theorem category_filter:
  assumes "set (categories r) \<inter> set TARGET_CATEGORIES = {}"
  shows "r \<notin> set (raw_papers w ids) \<and>
    (\<forall>new. fetch_arxiv_updates w ids = Inr new \<longrightarrow> r \<notin> set new) \<and>
    (\<forall>N. processed w (raw_papers w ids) = Inr N \<longrightarrow>
       length N = length (raw_papers w ids) \<and>
       (\<forall>j<length N. built w j (raw_papers w ids ! j) = Inr (N ! j) \<and> raw_papers w ids ! j \<noteq> r))"
proof -
  have no: "\<not> wanted ids r" using assms by (simp add: wanted_def target_cats_Nil)
  then have raw: "r \<notin> set (raw_papers w ids)" using raw_papers_member(1) by blast
  have fetch: "r \<notin> set new" if "fetch_arxiv_updates w ids = Inr new" for new
    using raw that by (simp add: raw_papers_def)
  have batch: "length N = length (raw_papers w ids) \<and>
       (\<forall>j<length N. built w j (raw_papers w ids ! j) = Inr (N ! j) \<and> raw_papers w ids ! j \<noteq> r)"
    if "processed w (raw_papers w ids) = Inr N" for N
  proof -
    from processed_Inr [OF that] have len: "length N = length (raw_papers w ids)"
      and nth: "\<forall>j<length (raw_papers w ids). built w j (raw_papers w ids ! j) = Inr (N ! j)"
      by simp_all
    have "raw_papers w ids ! j \<noteq> r" if "j < length N" for j
      using raw that len nth_mem [of j "raw_papers w ids"] by auto
    then show ?thesis using len nth by simp
  qed
  from raw fetch batch show ?thesis by blast
qed

theorem category_filter_witness:
  "set (categories paper_math) \<inter> set TARGET_CATEGORIES = {} \<and>
   utc_now example_world - timedelta_hours 25 \<le> updated paper_math \<and>
   paper_math \<in> set (fst (results example_world)) \<and>
   paper_math \<notin> set (raw_papers example_world {JStr ''2410.09999v1''})"
proof -
  have none: "set (categories paper_math) \<inter> set TARGET_CATEGORIES = {}"
    by (simp add: paper_math_def TARGET_CATEGORIES_def)
  have "utc_now example_world - timedelta_hours 25 \<le> updated paper_math"
    by (simp add: paper_math_def example_world_def timedelta_hours_def)
  moreover have "paper_math \<in> set (fst (results example_world))"
    by (simp add: example_world_def)
  ultimately show ?thesis
    using none category_filter [OF none, of example_world "{JStr ''2410.09999v1''}"]
    by blast
qed

subsection \<open>C6: a run without new papers\<close>

text \<open>
  C6. Let the loaded collection be the list \<open>E\<close>, with the id set built from it. If the
  fetch raises, or returns no entry, then the batch is empty, the run reaches the write,
  and the document handed to it is \<open>E\<close> itself; unless the write raises, the file holds
  \<open>E\<close> afterwards.
\<close>

theorem empty_batch_frame:
  assumes "get_existing_papers fs = JArr E"
    and "existing_ids_of (JArr E) = Inr ids"
    and "(\<exists>e. fetch_arxiv_updates w ids = Inl e) \<or> fetch_arxiv_updates w ids = Inr []"
  shows "processed w (raw_papers w ids) = Inr [] \<and>
    final_data w fs = Inr (JArr E) \<and>
    (write_error w = None \<longrightarrow> main w fs = Inr (Present (Inr (JArr E))))"
proof -
  have "raw_papers w ids = []" using assms(3) by (auto simp: raw_papers_def)
  then have p: "processed w (raw_papers w ids) = Inr []" by (simp add: processed_def)
  from final_data_merge [OF assms(1,2) p] p show ?thesis by simp
qed

theorem empty_batch_frame_witness:
  "fetch_arxiv_updates failing_world {JStr ''2410.09999v1''} = Inl HTTPError \<and>
   final_data failing_world example_file = Inr (JArr [old_record]) \<and>
   main failing_world example_file = Inr example_file \<and>
   fetch_arxiv_updates quiet_world {JStr ''2410.09999v1''} = Inr [] \<and>
   final_data quiet_world example_file = Inr (JArr [old_record]) \<and>
   main quiet_world example_file = Inr example_file"
proof -
  have raised: "fetch_arxiv_updates failing_world {JStr ''2410.09999v1''} = Inl HTTPError"
    by code_simp
  have quiet: "fetch_arxiv_updates quiet_world {JStr ''2410.09999v1''} = Inr []"
    by code_simp
  have w: "write_error failing_world = None" "write_error quiet_world = None"
    by (simp_all add: failing_world_def quiet_world_def example_world_def)
  have "(\<exists>e. fetch_arxiv_updates failing_world {JStr ''2410.09999v1''} = Inl e) \<or>
      fetch_arxiv_updates failing_world {JStr ''2410.09999v1''} = Inr []"
    by (intro disjI1 exI) (rule raised)
  from empty_batch_frame [OF example_loaded example_ids' this]
  have 1: "final_data failing_world example_file = Inr (JArr [old_record])"
    "main failing_world example_file = Inr example_file"
    using w by (simp_all add: example_file_def)
  have "(\<exists>e. fetch_arxiv_updates quiet_world {JStr ''2410.09999v1''} = Inl e) \<or>
      fetch_arxiv_updates quiet_world {JStr ''2410.09999v1''} = Inr []"
    by (rule disjI2) (rule quiet)
  from empty_batch_frame [OF example_loaded example_ids' this]
  have 2: "final_data quiet_world example_file = Inr (JArr [old_record])"
    "main quiet_world example_file = Inr example_file"
    using w by (simp_all add: example_file_def)
  from raised quiet 1 2 show ?thesis by simp
qed

subsection \<open>C7: what the loader returns\<close>

text \<open>
  C7, as the code has it. The loader never raises. When the file is absent, or when
  opening or parsing it raises, the loader returns the empty list. When the file parses,
  the loader returns the parsed document as it is, whatever its shape: so the result is a
  sequence of record mappings exactly when the file is absent, unreadable, or holds a
  JSON array of objects.
\<close>

theorem loader_degrade:
  "((\<forall>v. fs \<noteq> Present (Inr v)) \<longrightarrow> get_existing_papers fs = JArr []) \<and>
   (\<forall>v. fs = Present (Inr v) \<longrightarrow> get_existing_papers fs = v) \<and>
   (is_record_sequence (get_existing_papers fs) \<longleftrightarrow>
      (\<forall>v. fs = Present (Inr v) \<longrightarrow> is_record_sequence v))"
proof (cases fs)
  case Absent
  then show ?thesis by simp
next
  case (Present outcome)
  then show ?thesis by (cases outcome) simp_all
qed

theorem loader_degrade_witness:
  "get_existing_papers Absent = JArr [] \<and>
   get_existing_papers (Present (Inl JSONDecodeError)) = JArr [] \<and>
   get_existing_papers example_file = JArr [old_record] \<and>
   is_record_sequence (get_existing_papers example_file)"
  using loader_degrade [of Absent] loader_degrade [of "Present (Inl JSONDecodeError)"]
    loader_degrade [of example_file]
  by (simp add: example_file_def old_record_def)

text \<open>
  C7 as stated fails on a file that holds well-formed JSON of another shape, here the
  document \<open>{"papers": []}\<close>: \<open>json.load\<close> raises nothing, so the dict comes back,
  which is neither a sequence of records nor the empty list.
\<close>

theorem loader_counterexample:
  "get_existing_papers (Present (Inr (JObj [(''papers'', JArr [])]))) = JObj [(''papers'', JArr [])] \<and>
   \<not> is_record_sequence (get_existing_papers (Present (Inr (JObj [(''papers'', JArr [])])))) \<and>
   get_existing_papers (Present (Inr (JObj [(''papers'', JArr [])]))) \<noteq> JArr []"
  by simp

subsection \<open>C8: the tags of a record\<close>

text \<open>
  C8. In every record the builder returns, the field \<open>tags\<close> is the list of the
  entry's categories that are target categories, in the entry's order (a subsequence of
  its categories), each with the part up to its last dot stripped; so every tag is one of
  \<open>AI\<close>, \<open>CL\<close>, \<open>LG\<close>, \<open>CV\<close>.
\<close>

theorem tags_field:
  assumes "paper_obj r g a = Inr obj"
  shows "field obj ''tags'' =
      Some (JArr (map (\<lambda>c. JStr (strip_category_prefix c))
        (filter (\<lambda>c. c \<in> set TARGET_CATEGORIES) (categories r)))) \<and>
    subseq (filter (\<lambda>c. c \<in> set TARGET_CATEGORIES) (categories r)) (categories r) \<and>
    set (tags_of r) \<subseteq> {''AI'', ''CL'', ''LG'', ''CV''}"
proof -
  have "tags_of r = map strip_category_prefix
      (filter (\<lambda>c. c \<in> set TARGET_CATEGORIES) (categories r))"
    by (simp add: tags_of_def strip_category_prefix_def last_part_takeWhile)
  then have "field obj ''tags'' =
      Some (JArr (map (\<lambda>c. JStr (strip_category_prefix c))
        (filter (\<lambda>c. c \<in> set TARGET_CATEGORIES) (categories r))))"
    using paper_obj_tags [OF assms] by (simp add: comp_def)
  then show ?thesis using tags_of_target by simp
qed

theorem tags_field_witness:
  "categories paper_new = [''math.OC'', ''cs.LG'', ''cs.CV''] \<and>
   field (projr (paper_obj paper_new (random_choice 3) fallback)) ''tags'' =
     Some (JArr [JStr ''LG'', JStr ''CV''])"
proof -
  have "\<exists>obj. paper_obj paper_new (random_choice 3) fallback = Inr obj"
    by (simp add: paper_obj_Inr_iff fallback_def paper_new_def)
  then have b: "paper_obj paper_new (random_choice 3) fallback =
      Inr (projr (paper_obj paper_new (random_choice 3) fallback))"
    by auto
  have cats: "categories paper_new = [''math.OC'', ''cs.LG'', ''cs.CV'']"
    by (simp add: paper_new_def)
  from tags_field [OF b] show ?thesis
    by (simp add: cats TARGET_CATEGORIES_def strip_category_prefix_def)
qed

subsection \<open>C9: the first category exists\<close>

text \<open>
  C9. Every raw paper of a run has a category, so reading its first category succeeds;
  neither the processing loop nor the run as a whole ends with an \<open>IndexError\<close>.
\<close>

theorem categories_nonempty:
  "(\<forall>r\<in>set (raw_papers w ids).
      categories r \<noteq> [] \<and> first_item (categories r) = Inr (hd (categories r))) \<and>
   processed w (raw_papers w ids) \<noteq> Inl IndexError \<and>
   final_data w fs \<noteq> Inl IndexError"
proof (intro conjI ballI)
  fix r assume "r \<in> set (raw_papers w ids)"
  then have "target_cats r \<noteq> []"
    using raw_papers_member(1) by (auto simp: wanted_def)
  then show "categories r \<noteq> []" by (auto simp: target_cats_def)
  then show "first_item (categories r) = Inr (hd (categories r))"
    by (cases "categories r") simp_all
next
  show p: "processed w (raw_papers w ids) \<noteq> Inl IndexError" for ids
  proof
    assume "processed w (raw_papers w ids) = Inl IndexError"
    from processed_Inl [OF this] obtain j where "j < length (raw_papers w ids)"
      and "built w j (raw_papers w ids ! j) = Inl IndexError" by blast
    then show False using built_raw_no_IndexError [of "raw_papers w ids ! j" w ids j]
      by simp
  qed
  show "final_data w fs \<noteq> Inl IndexError"
  proof
    assume f: "final_data w fs = Inl IndexError"
    show False
    proof (cases "existing_ids_of (get_existing_papers fs)")
      case (Inl e)
      then show ?thesis using f existing_ids_of_Inl [OF Inl] by (auto simp: final_data_def)
    next
      case ids: (Inr ids)
      show ?thesis
      proof (cases "processed w (raw_papers w ids)")
        case (Inl e)
        then show ?thesis using f ids p [of ids] by (simp add: final_data_def)
      next
        case (Inr N)
        then show ?thesis using f ids list_plus_Inl [of N "get_existing_papers fs" IndexError]
          by (simp add: final_data_def)
      qed
    qed
  qed
qed

theorem categories_nonempty_witness:
  "paper_new \<in> set (raw_papers example_world {JStr ''2410.09999v1''}) \<and>
   categories paper_new \<noteq> [] \<and>
   first_item (categories paper_new) = Inr ''math.OC'' \<and>
   final_data example_world example_file \<noteq> Inl IndexError"
proof -
  have mem: "paper_new \<in> set (raw_papers example_world {JStr ''2410.09999v1''})"
    by (simp add: example_raw_papers)
  have "hd (categories paper_new) = ''math.OC''" by (simp add: paper_new_def)
  then show ?thesis
    using mem categories_nonempty [of example_world "{JStr ''2410.09999v1''}" example_file]
    by auto
qed

subsection \<open>C10: an answer without the expected keys\<close>

text \<open>
  C10. When the enrichment call for a raw paper succeeds with a JSON object, the record
  is built; a missing \<open>innovation\<close> key gives the summary the default \<open>no_summary\<close>, a
  missing \<open>abstract_zh\<close> key gives the translation the default \<open>no_translation\<close>, and a
  key that is present gives its value. The two defaults differ from the two placeholders
  of the error path.
\<close>

theorem missing_key_defaults:
  assumes "r \<in> set (raw_papers w ids)"
    and "chat w i (title r) (summary r) = Inr (JObj kvs)"
  shows "(\<exists>obj. built w i r = Inr obj \<and>
      (map_of kvs ''innovation'' = None \<longrightarrow>
         field obj ''summary'' = Some (JObj [(''innovation'', JStr no_summary)])) \<and>
      (map_of kvs ''abstract_zh'' = None \<longrightarrow>
         field obj ''abstract_zh'' = Some (JStr no_translation)) \<and>
      (\<forall>v. map_of kvs ''innovation'' = Some v \<longrightarrow>
         field obj ''summary'' = Some (JObj [(''innovation'', v)])) \<and>
      (\<forall>v. map_of kvs ''abstract_zh'' = Some v \<longrightarrow> field obj ''abstract_zh'' = Some v)) \<and>
    no_summary \<noteq> summary_unavailable \<and> no_translation \<noteq> translation_unavailable"
proof -
  have "target_cats r \<noteq> []"
    using raw_papers_member(1) [OF assms(1)] by (simp add: wanted_def)
  then have "categories r \<noteq> []" by (auto simp: target_cats_def)
  from paper_obj_JObj [OF this, of "random_choice (choice w i)" kvs]
  obtain obj where "paper_obj r (random_choice (choice w i)) (JObj kvs) = Inr obj"
    and "field obj ''summary'' = Some (JObj [(''innovation'',
      case map_of kvs ''innovation'' of None \<Rightarrow> JStr no_summary | Some v \<Rightarrow> v)])"
    and "field obj ''abstract_zh'' =
      Some (case map_of kvs ''abstract_zh'' of None \<Rightarrow> JStr no_translation | Some v \<Rightarrow> v)"
    by blast
  moreover have "ai_process w i (title r) (summary r) = JObj kvs"
    using assms(2) by (simp add: ai_process_def)
  ultimately have c: "built w i r = Inr obj \<and>
      (map_of kvs ''innovation'' = None \<longrightarrow>
         field obj ''summary'' = Some (JObj [(''innovation'', JStr no_summary)])) \<and>
      (map_of kvs ''abstract_zh'' = None \<longrightarrow>
         field obj ''abstract_zh'' = Some (JStr no_translation)) \<and>
      (\<forall>v. map_of kvs ''innovation'' = Some v \<longrightarrow>
         field obj ''summary'' = Some (JObj [(''innovation'', v)])) \<and>
      (\<forall>v. map_of kvs ''abstract_zh'' = Some v \<longrightarrow> field obj ''abstract_zh'' = Some v)"
    by (simp add: built_def)
  show ?thesis
  proof (intro conjI)
    show "\<exists>obj. built w i r = Inr obj \<and>
      (map_of kvs ''innovation'' = None \<longrightarrow>
         field obj ''summary'' = Some (JObj [(''innovation'', JStr no_summary)])) \<and>
      (map_of kvs ''abstract_zh'' = None \<longrightarrow>
         field obj ''abstract_zh'' = Some (JStr no_translation)) \<and>
      (\<forall>v. map_of kvs ''innovation'' = Some v \<longrightarrow>
         field obj ''summary'' = Some (JObj [(''innovation'', v)])) \<and>
      (\<forall>v. map_of kvs ''abstract_zh'' = Some v \<longrightarrow> field obj ''abstract_zh'' = Some v)"
      by (intro exI [of _ obj]) (rule c)
  qed (rule defaults_differ)+
qed

theorem missing_key_defaults_witness:
  "paper_edge \<in> set (raw_papers example_world {JStr ''2410.09999v1''}) \<and>
   chat example_world 1 (title paper_edge) (summary paper_edge) =
     Inr (JObj [(''innovation'', JStr ''agents'')]) \<and>
   field (projr (built example_world 1 paper_edge)) ''summary'' =
     Some (JObj [(''innovation'', JStr ''agents'')]) \<and>
   field (projr (built example_world 1 paper_edge)) ''abstract_zh'' = Some (JStr no_translation) \<and>
   paper_new \<in> set (raw_papers bare_world {JStr ''2410.09999v1''}) \<and>
   chat bare_world 0 (title paper_new) (summary paper_new) = Inr (JObj []) \<and>
   field (projr (built bare_world 0 paper_new)) ''summary'' =
     Some (JObj [(''innovation'', JStr no_summary)]) \<and>
   field (projr (built bare_world 0 paper_new)) ''abstract_zh'' = Some (JStr no_translation)"
proof -
  have mem: "paper_edge \<in> set (raw_papers example_world {JStr ''2410.09999v1''})"
    by (simp add: example_raw_papers)
  have answer: "chat example_world 1 (title paper_edge) (summary paper_edge) =
      Inr (JObj [(''innovation'', JStr ''agents'')])"
    by (simp add: example_world_def)
  from missing_key_defaults [OF mem answer]
  obtain obj where "built example_world 1 paper_edge = Inr obj"
    and "field obj ''summary'' = Some (JObj [(''innovation'', JStr ''agents'')])"
    and "field obj ''abstract_zh'' = Some (JStr no_translation)"
    by auto
  then have one: "field (projr (built example_world 1 paper_edge)) ''summary'' =
      Some (JObj [(''innovation'', JStr ''agents'')])"
    "field (projr (built example_world 1 paper_edge)) ''abstract_zh'' = Some (JStr no_translation)"
    by simp_all
  have mem': "paper_new \<in> set (raw_papers bare_world {JStr ''2410.09999v1''})"
    by (simp add: bare_raw_papers)
  have answer': "chat bare_world 0 (title paper_new) (summary paper_new) = Inr (JObj [])"
    by (simp add: bare_world_def)
  from missing_key_defaults [OF mem' answer']
  obtain obj' where "built bare_world 0 paper_new = Inr obj'"
    and "field obj' ''summary'' = Some (JObj [(''innovation'', JStr no_summary)])"
    and "field obj' ''abstract_zh'' = Some (JStr no_translation)"
    by auto
  then have two: "field (projr (built bare_world 0 paper_new)) ''summary'' =
      Some (JObj [(''innovation'', JStr no_summary)])"
    "field (projr (built bare_world 0 paper_new)) ''abstract_zh'' = Some (JStr no_translation)"
    by simp_all
  from mem answer one mem' answer' two show ?thesis by simp
qed

end
